theory Spec2Isabelle
  imports Main "HOL-Library.Multiset"
begin

section \<open>The feed aggregator of background.js\<close>

text \<open>
  The background script keeps two module-level variables, \<open>unifiedFeed\<close> (an array of
  post objects) and \<open>monitoredTabs\<close> (a Map from tab id to tab information), plus the
  handle of the debounce timer. Every listener runs to completion, so each source
  function becomes a function from the state before to the state after. What the script
  does to its environment is kept in the state as well: the \<open>unifiedFeed\<close> key of
  \<open>chrome.storage.local\<close>, the result of the storage read that is still in flight, and
  the notifications handed to \<open>chrome.runtime.sendMessage\<close>.
\<close>

subsection \<open>Data\<close>

text \<open>
  A post object as the scrapers build it. \<open>id\<close> may be missing (\<open>None\<close>) or the empty
  string; \<open>timestamp\<close> may be missing; \<open>engagement\<close> is an object whose counter names
  differ between platforms, or is missing altogether; \<open>sourceTabId\<close> is \<open>sender.tab?.id\<close>
  and so may be undefined. \<open>scrapedAt\<close> and the counters are integral JavaScript numbers
  (\<open>Date.now()\<close>, \<open>parseInt\<close>). A timestamp is a number of milliseconds from the
  Mastodon and Bluesky scrapers; the Twitter scraper overwrites the parsed time with the
  text that stands next to the author's name (\<open>parts[3] || parts[2] || ''\<close>), so a
  timestamp can be a text such as \<open>2h\<close> as well. The remaining payload (author, images,
  url) is never read by the background script; \<open>content\<close> stands for it.
\<close>

type_synonym counters = "string \<rightharpoonup> int"

datatype js_time = Number int | Text string

record post =
  post_id :: "string option"
  platform :: string
  content :: string
  timestamp :: "js_time option"
  scrapedAt :: int
  engagement :: "counters option"
  sourceTabId :: "int option"

record tab =
  tab_id :: "int option"
  tab_url :: "string option"

record tab_info =
  info_url :: string
  info_platform :: string
  lastUpdate :: int

datatype notification = FEED_UPDATED post | FEED_CLEARED

record state =
  unifiedFeed :: "post list"
  monitoredTabs :: "int \<rightharpoonup> tab_info"
  saveTimeout :: bool
  stored :: "post list option"
  pendingLoad :: "post list option option"
  sent :: "notification list"

definition MAX_FEED_SIZE :: nat where
  "MAX_FEED_SIZE = 500"

subsection \<open>Array and string primitives\<close>

text \<open>\<open>Array.prototype.findIndex\<close>: the first index whose element satisfies the
  predicate, \<open>-1\<close> when there is none.\<close>

fun findIndex :: "('a \<Rightarrow> bool) \<Rightarrow> 'a list \<Rightarrow> int" where
  "findIndex P [] = - 1"
| "findIndex P (x # xs) =
     (if P x then 0 else (let i = findIndex P xs in if i < 0 then - 1 else i + 1))"

text \<open>
  \<open>Array.prototype.sort\<close> with a comparator. The language requires the sort to be
  stable, and for a consistent comparator (differences of integer keys, or a
  lexicographic combination of such) every stable sort returns the same array, so
  insertion into the sorted tail is taken as the algorithm: \<open>x\<close> stays in front of \<open>y\<close>
  unless the comparator is positive. A comparator that meets a text timestamp can return
  \<open>NaN\<close> and is then not consistent; the language leaves the order to the engine in that
  case, and the insertion here is one order an engine may produce.
\<close>

fun insert_by :: "('a \<Rightarrow> 'a \<Rightarrow> int) \<Rightarrow> 'a \<Rightarrow> 'a list \<Rightarrow> 'a list" where
  "insert_by cmp x [] = [x]"
| "insert_by cmp x (y # ys) =
     (if cmp x y \<le> 0 then x # y # ys else y # insert_by cmp x ys)"

definition array_sort :: "('a \<Rightarrow> 'a \<Rightarrow> int) \<Rightarrow> 'a list \<Rightarrow> 'a list" where
  "array_sort cmp xs = foldr (insert_by cmp) xs []"

text \<open>
  The subtraction \<open>timeB - timeA\<close> converts its operands to numbers. A text converts to
  the integer it spells in decimal digits, with an optional sign and with white space
  around it, and a blank text to \<open>0\<close>; any other text, \<open>2h\<close> or \<open>Mar 5\<close> for instance,
  converts to \<open>NaN\<close>, which is \<open>None\<close> here. (A text that spells a fraction, an exponent, a
  radix prefix or \<open>Infinity\<close> has a numeric value that an integer cannot hold; it is read
  as \<open>NaN\<close> here, too.) A difference with a \<open>NaN\<close> operand is \<open>NaN\<close>, and the sort reads a
  comparator result of \<open>NaN\<close> as \<open>+0\<close>.
\<close>

definition isWhiteSpace :: "char \<Rightarrow> bool" where
  "isWhiteSpace c \<longleftrightarrow> c \<in> {CHR 0x09, CHR 0x0A, CHR 0x0B, CHR 0x0C, CHR 0x0D, CHR 0x20}"

definition trim :: "string \<Rightarrow> string" where
  "trim w = rev (dropWhile isWhiteSpace (rev (dropWhile isWhiteSpace w)))"

definition isDigit :: "char \<Rightarrow> bool" where
  "isDigit c \<longleftrightarrow> (48::nat) \<le> of_char c \<and> (of_char c :: nat) \<le> 57"

definition decimalValue :: "string \<Rightarrow> int" where
  "decimalValue ds = foldl (\<lambda>v c. 10 * v + (int (of_char c) - 48)) 0 ds"

definition toNumber :: "string \<Rightarrow> int option" where
  "toNumber w =
     (let t = trim w;
          negative = (t \<noteq> [] \<and> hd t = CHR ''-'');
          ds = (if t \<noteq> [] \<and> (hd t = CHR ''-'' \<or> hd t = CHR ''+'') then tl t else t)
      in if t = [] then Some 0
         else if ds \<noteq> [] \<and> list_all isDigit ds
           then Some (if negative then - decimalValue ds else decimalValue ds)
         else None)"

definition numberOf :: "js_time \<Rightarrow> int option" where
  "numberOf v = (case v of Number n \<Rightarrow> Some n | Text w \<Rightarrow> toNumber w)"

definition js_minus :: "js_time \<Rightarrow> js_time \<Rightarrow> int option" where
  "js_minus x y =
     (case (numberOf x, numberOf y) of (Some a, Some b) \<Rightarrow> Some (a - b) | _ \<Rightarrow> None)"

definition nanToZero :: "int option \<Rightarrow> int" where
  "nanToZero v = (case v of None \<Rightarrow> 0 | Some n \<Rightarrow> n)"

text \<open>\<open>String.prototype.includes\<close>.\<close>

fun str_includes :: "string \<Rightarrow> string \<Rightarrow> bool" where
  "str_includes [] sub = (sub = [])"
| "str_includes (c # cs) sub = (take (length sub) (c # cs) = sub \<or> str_includes cs sub)"

text \<open>\<open>String.prototype.localeCompare\<close>, as the comparison of character codes; on the
  lower-case ASCII platform names the scrapers emit the two agree.\<close>

fun localeCompare :: "string \<Rightarrow> string \<Rightarrow> int" where
  "localeCompare [] [] = 0"
| "localeCompare [] (y # ys) = - 1"
| "localeCompare (x # xs) [] = 1"
| "localeCompare (x # xs) (y # ys) =
     (if x = y then localeCompare xs ys
      else if (of_char x :: nat) < of_char y then - 1 else 1)"

subsection \<open>Tab registry\<close>

definition getPlatform :: "string \<Rightarrow> string" where
  "getPlatform url =
     (if str_includes url ''twitter.com'' \<or> str_includes url ''x.com'' then ''twitter''
      else if str_includes url ''bsky.app'' then ''bluesky''
      else if str_includes url ''mastodon'' \<or> str_includes url ''fosstodon'' \<or>
              str_includes url ''hachyderm'' \<or>
              str_includes url ''.social'' \<or> str_includes url ''.exchange'' then ''mastodon''
      else ''unknown'')"

text \<open>\<open>monitorTab\<close> returns at once when \<open>tab.id\<close> or \<open>tab.url\<close> is falsy (missing, \<open>0\<close>,
  the empty string). \<open>now\<close> is the value of \<open>Date.now()\<close>.\<close>

definition monitorTab :: "tab \<Rightarrow> int \<Rightarrow> state \<Rightarrow> state" where
  "monitorTab t now s =
     (case (tab_id t, tab_url t) of
        (Some i, Some u) \<Rightarrow>
          if i = 0 \<or> u = [] then s
          else s\<lparr>monitoredTabs := (monitoredTabs s)
                 (i \<mapsto> \<lparr>info_url = u, info_platform = getPlatform u, lastUpdate = now\<rparr>)\<rparr>
      | _ \<Rightarrow> s)"

subsection \<open>Persistence\<close>

text \<open>\<open>saveFeedToStorage\<close> cancels the pending timer and arms a new one; when the timer
  fires, the feed of that moment is written to storage.\<close>

definition saveFeedToStorage :: "state \<Rightarrow> state" where
  "saveFeedToStorage s = s\<lparr>saveTimeout := True\<rparr>"

definition saveTimeoutFired :: "state \<Rightarrow> state" where
  "saveTimeoutFired s =
     (if saveTimeout s then s\<lparr>stored := Some (unifiedFeed s), saveTimeout := False\<rparr> else s)"

text \<open>
  \<open>loadFeedFromStorage\<close> is an async function: the call runs up to the \<open>await\<close>, where
  the storage read is issued, and returns; the rest runs as a later task of its own, with
  the result of the read. An array, even an empty one, is truthy; a missing key is not.
\<close>

definition loadFeedFromStorage :: "state \<Rightarrow> state" where
  "loadFeedFromStorage s = s\<lparr>pendingLoad := Some (stored s)\<rparr>"

definition loadFeedFromStorage_resume :: "state \<Rightarrow> state" where
  "loadFeedFromStorage_resume s =
     (case pendingLoad s of
        None \<Rightarrow> s
      | Some None \<Rightarrow> s\<lparr>pendingLoad := None\<rparr>
      | Some (Some feed) \<Rightarrow> s\<lparr>unifiedFeed := feed, pendingLoad := None\<rparr>)"

subsection \<open>Feed store\<close>

definition notifyPopup :: "notification \<Rightarrow> state \<Rightarrow> state" where
  "notifyPopup n s = s\<lparr>sent := sent s @ [n]\<rparr>"

definition cleanupTabPosts :: "int \<Rightarrow> state \<Rightarrow> state" where
  "cleanupTabPosts tabId s =
     saveFeedToStorage
       (s\<lparr>unifiedFeed := filter (\<lambda>post. sourceTabId post \<noteq> Some tabId) (unifiedFeed s)\<rparr>)"

definition unmonitorTab :: "int \<Rightarrow> state \<Rightarrow> state" where
  "unmonitorTab tabId s =
     (if monitoredTabs s tabId \<noteq> None
      then cleanupTabPosts tabId (s\<lparr>monitoredTabs := (monitoredTabs s)(tabId := None)\<rparr>)
      else s)"

definition handleNewPost :: "post \<Rightarrow> int option \<Rightarrow> state \<Rightarrow> state" where
  "handleNewPost postData0 tabId s =
     (let postData = postData0\<lparr>sourceTabId := tabId\<rparr>;
          existingIndex = findIndex (\<lambda>p. post_id p = post_id postData) (unifiedFeed s);
          s1 = (if existingIndex \<ge> 0
                then s\<lparr>unifiedFeed := (unifiedFeed s)[nat existingIndex := postData]\<rparr>
                else notifyPopup (FEED_UPDATED postData)
                       (s\<lparr>unifiedFeed := unifiedFeed s @ [postData]\<rparr>));
          s2 = (if length (unifiedFeed s1) > MAX_FEED_SIZE
                then s1\<lparr>unifiedFeed := take MAX_FEED_SIZE
                         (array_sort (\<lambda>a b. scrapedAt b - scrapedAt a) (unifiedFeed s1))\<rparr>
                else s1)
      in saveFeedToStorage s2)"

definition clearFeed :: "state \<Rightarrow> state" where
  "clearFeed s = notifyPopup FEED_CLEARED (s\<lparr>unifiedFeed := [], stored := Some []\<rparr>)"

subsection \<open>Sorted views\<close>

text \<open>\<open>a.timestamp || a.scrapedAt\<close>: the right operand is taken whenever the left one is
  falsy, that is missing, the number \<open>0\<close> or the empty text. A text that is not empty is
  truthy and is the value of the expression.\<close>

definition postTime :: "post \<Rightarrow> js_time" where
  "postTime a =
     (case timestamp a of
        None \<Rightarrow> Number (scrapedAt a)
      | Some (Number t) \<Rightarrow> if t = 0 then Number (scrapedAt a) else Number t
      | Some (Text w) \<Rightarrow> if w = [] then Number (scrapedAt a) else Text w)"

text \<open>\<open>a.engagement?.name || 0\<close>.\<close>

definition counter :: "post \<Rightarrow> string \<Rightarrow> int" where
  "counter a name =
     (case engagement a of None \<Rightarrow> 0
      | Some e \<Rightarrow> (case e name of None \<Rightarrow> 0 | Some n \<Rightarrow> n))"

definition engagementTotal :: "post \<Rightarrow> int" where
  "engagementTotal a =
     counter a ''likes'' + counter a ''retweets'' + counter a ''reposts'' +
     counter a ''boosts'' + counter a ''favorites'' + counter a ''replies''"

text \<open>The parameter default makes a missing \<open>sortBy\<close> chronological; the \<open>switch\<close> has
  no default branch, so any other string leaves the copy as it is.\<close>

definition getSortedFeed :: "string option \<Rightarrow> state \<Rightarrow> post list" where
  "getSortedFeed sortBy0 s =
     (let sortBy = (case sortBy0 of None \<Rightarrow> ''chronological'' | Some p \<Rightarrow> p);
          copy = unifiedFeed s
      in if sortBy = ''chronological''
           then array_sort (\<lambda>a b. nanToZero (js_minus (postTime b) (postTime a))) copy
         else if sortBy = ''chronological-old''
           then array_sort (\<lambda>a b. nanToZero (js_minus (postTime a) (postTime b))) copy
         else if sortBy = ''engagement''
           then array_sort (\<lambda>a b. engagementTotal b - engagementTotal a) copy
         else if sortBy = ''platform''
           then array_sort (\<lambda>a b. if platform a \<noteq> platform b
                                   then localeCompare (platform a) (platform b)
                                   else nanToZero (js_minus (postTime b) (postTime a))) copy
         else copy)"

subsection \<open>Message router and events\<close>

datatype message =
  NEW_POST post | GET_FEED "string option" | OPEN_POST string | REFRESH_FEED | CLEAR_FEED
  | OTHER string

datatype response = Success | Feed "post list" | NoResponse

text \<open>The listener of \<open>chrome.runtime.onMessage\<close>; \<open>sender\<close> is \<open>sender.tab?.id\<close>.
  \<open>OPEN_POST\<close> and \<open>REFRESH_FEED\<close> only talk to other tabs and leave this state alone;
  a message of any other type gets no response. A \<open>NEW_POST\<close> always carries a record
  here: without one, the first statement of \<open>handleNewPost\<close> would raise a
  \<open>TypeError\<close>.\<close>

definition onMessage :: "message \<Rightarrow> int option \<Rightarrow> state \<Rightarrow> response \<times> state" where
  "onMessage m sender s =
     (case m of
        NEW_POST d \<Rightarrow> (Success, handleNewPost d sender s)
      | GET_FEED sortBy \<Rightarrow> (Feed (getSortedFeed sortBy s), s)
      | OPEN_POST u \<Rightarrow> (Success, s)
      | REFRESH_FEED \<Rightarrow> (Success, s)
      | CLEAR_FEED \<Rightarrow> (Success, clearFeed s)
      | OTHER t \<Rightarrow> (NoResponse, s))"

text \<open>A start of the service worker: the module-level variables get their initial
  values, and the last statement of the script calls \<open>loadFeedFromStorage()\<close> without
  awaiting it. Storage and the notifications already sent belong to the environment.\<close>

definition startup :: "post list option \<Rightarrow> notification list \<Rightarrow> state" where
  "startup st out =
     loadFeedFromStorage
       \<lparr>unifiedFeed = [], monitoredTabs = Map.empty, saveTimeout = False,
        stored = st, pendingLoad = None, sent = out\<rparr>"

definition init_state :: state where
  "init_state = startup None []"

text \<open>
  What can happen to a running worker: a message arrives; a tab listener calls
  \<open>monitorTab\<close> or \<open>unmonitorTab\<close> (the listeners decide by the tab's URL, any call is
  allowed here); a tab is activated; the debounce timer fires; the storage read
  completes; the extension is installed (storage is reset); the worker is stopped and
  started again.
\<close>

datatype event =
  Message message "int option"
  | MonitorTab tab int
  | UnmonitorTab int
  | TabActivated int int
  | SaveTimeoutFired
  | LoadResolved
  | Installed
  | Restart

definition tabActivated :: "int \<Rightarrow> int \<Rightarrow> state \<Rightarrow> state" where
  "tabActivated tabId now s =
     (case monitoredTabs s tabId of
        None \<Rightarrow> s
      | Some tabInfo \<Rightarrow> s\<lparr>monitoredTabs := (monitoredTabs s)(tabId \<mapsto> tabInfo\<lparr>lastUpdate := now\<rparr>)\<rparr>)"

fun step :: "event \<Rightarrow> state \<Rightarrow> state" where
  "step (Message m sender) s = snd (onMessage m sender s)"
| "step (MonitorTab t now) s = monitorTab t now s"
| "step (UnmonitorTab tabId) s = unmonitorTab tabId s"
| "step (TabActivated tabId now) s = tabActivated tabId now s"
| "step SaveTimeoutFired s = saveTimeoutFired s"
| "step LoadResolved s = loadFeedFromStorage_resume s"
| "step Installed s = s\<lparr>stored := Some []\<rparr>"
| "step Restart s = startup (stored s) (sent s)"

fun run :: "event list \<Rightarrow> state \<Rightarrow> state" where
  "run [] s = s"
| "run (e # es) s = run es (step e s)"

subsection \<open>Well-formed feeds\<close>

text \<open>A feed is well formed when it respects the capacity and holds no id twice. A
  state is well formed when its feed is, and so is every feed kept in storage or on its
  way from storage.\<close>

definition feed_ok :: "post list \<Rightarrow> bool" where
  "feed_ok feed \<longleftrightarrow> length feed \<le> MAX_FEED_SIZE \<and> distinct (map post_id feed)"

definition state_ok :: "state \<Rightarrow> bool" where
  "state_ok s \<longleftrightarrow>
     feed_ok (unifiedFeed s) \<and>
     (case stored s of None \<Rightarrow> True | Some feed \<Rightarrow> feed_ok feed) \<and>
     (case pendingLoad s of Some (Some feed) \<Rightarrow> feed_ok feed | _ \<Rightarrow> True)"

subsection \<open>Sample data\<close>

text \<open>Three posts as three scrapers would send them: one from Twitter with a like
  count, one from Mastodon with its own counter names and a zero timestamp, one without
  timestamp and without counters; and a post whose id is the empty string.\<close>

definition post_a :: post where
  "post_a = \<lparr>post_id = Some ''a'', platform = ''twitter'', content = ''first'',
              timestamp = Some (Number 50), scrapedAt = 10,
              engagement = Some [''likes'' \<mapsto> 10], sourceTabId = None\<rparr>"

definition post_b :: post where
  "post_b = \<lparr>post_id = Some ''b'', platform = ''mastodon'', content = ''second'',
              timestamp = Some (Number 0), scrapedAt = 100,
              engagement = Some [''boosts'' \<mapsto> 3, ''favorites'' \<mapsto> 2], sourceTabId = None\<rparr>"

definition post_c :: post where
  "post_c = \<lparr>post_id = Some ''c'', platform = ''bluesky'', content = ''third'',
              timestamp = None, scrapedAt = 70,
              engagement = None, sourceTabId = None\<rparr>"

definition post_noid :: post where
  "post_noid = \<lparr>post_id = Some [], platform = ''twitter'', content = ''nameless'',
                 timestamp = Some (Number 5), scrapedAt = 5,
                 engagement = None, sourceTabId = None\<rparr>"

definition home_tab :: tab where
  "home_tab = \<lparr>tab_id = Some 7, tab_url = Some ''https://x.com/home''\<rparr>"

text \<open>Tab 7 is monitored and has sent \<open>post_a\<close>; tab 8 has sent \<open>post_b\<close>.\<close>

definition two_sessions :: state where
  "two_sessions =
     run [MonitorTab home_tab 1, Message (NEW_POST post_a) (Some 7),
          Message (NEW_POST post_b) (Some 8)] init_state"



text \<open>\<open>post_a\<close> seen again, with one more like.\<close>

definition post_a_again :: post where
  "post_a_again = post_a\<lparr>engagement := Some [''likes'' \<mapsto> 11]\<rparr>"


text \<open>A worker that has stored \<open>post_a\<close> and is then stopped and started again.\<close>

definition cold_start :: "event list" where
  "cold_start = [Message (NEW_POST post_a) (Some 7), SaveTimeoutFired, Restart]"

text \<open>Five hundred posts with ids of their own, each scraped a millisecond before the
  one before it, fill the feed; \<open>late_post\<close> was scraped before all of them.\<close>

definition numbered :: "nat \<Rightarrow> post" where
  "numbered n = \<lparr>post_id = Some (CHR ''n'' # replicate n CHR ''x''), platform = ''twitter'',
                 content = [], timestamp = None, scrapedAt = 1000 - int n,
                 engagement = None, sourceTabId = None\<rparr>"

definition fill_up :: "event list" where
  "fill_up = map (\<lambda>n. Message (NEW_POST (numbered n)) (Some 7)) [0..<500]"

definition late_post :: post where
  "late_post = \<lparr>post_id = Some ''late'', platform = ''bluesky'', content = ''overdue'',
                timestamp = Some (Number 2000), scrapedAt = 1,
                engagement = None, sourceTabId = None\<rparr>"

subsection \<open>Notions of the specification\<close>




subsection \<open>Feeds with numeric timestamps\<close>



section \<open>Properties of the primitives\<close>

lemma findIndex_nonneg_iff: "0 \<le> findIndex P xs \<longleftrightarrow> (\<exists>x\<in>set xs. P x)"
  by (induction xs) (auto simp: Let_def)

lemma findIndex_absent: "a \<notin> f ` set xs \<Longrightarrow> findIndex (\<lambda>q. f q = a) xs = - 1"
  by (induction xs) (auto simp: Let_def)

lemma findIndex_present: "a \<in> f ` set xs \<Longrightarrow> 0 \<le> findIndex (\<lambda>q. f q = a) xs"
  by (induction xs) (auto simp: Let_def)

lemma findIndex_ge_minus1: "- 1 \<le> findIndex P xs"
  by (induction xs) (auto simp: Let_def)

lemma findIndex_less_length: "findIndex P xs < int (length xs)"
  by (induction xs) (auto simp: Let_def)

lemma findIndex_hit: "0 \<le> findIndex P xs \<Longrightarrow> P (xs ! nat (findIndex P xs))"
proof (induction xs)
  case Nil
  then show ?case by simp
next
  case (Cons x xs)
  show ?case
  proof (cases "P x")
    case True
    then show ?thesis by simp
  next
    case False
    with Cons.prems have nn: "0 \<le> findIndex P xs"
      by (auto simp: Let_def split: if_splits)
    then have "nat (findIndex P xs + 1) = Suc (nat (findIndex P xs))" by simp
    with False nn Cons.IH show ?thesis by (simp add: Let_def)
  qed
qed

lemma mset_insert_by: "mset (insert_by cmp x xs) = add_mset x (mset xs)"
  by (induction xs) auto

lemma mset_array_sort: "mset (array_sort cmp xs) = mset xs"
  by (induction xs) (auto simp: array_sort_def mset_insert_by)

lemma length_array_sort: "length (array_sort cmp xs) = length xs"
  by (metis mset_array_sort size_mset)


lemma insert_by_desc: "insert_by (\<lambda>a b. f b - f a) x ys = insort_key (\<lambda>p. - f p) x ys"
  for f :: "'a \<Rightarrow> int"
  by (induction ys) auto

lemma array_sort_desc: "array_sort (\<lambda>a b. f b - f a) xs = sort_key (\<lambda>p. - f p) xs"
  for f :: "'a \<Rightarrow> int"
  by (induction xs) (auto simp: array_sort_def sort_key_def insert_by_desc)

lemma insert_by_asc: "insert_by (\<lambda>a b. f a - f b) x ys = insort_key f x ys"
  for f :: "'a \<Rightarrow> int"
  by (induction ys) auto

lemma array_sort_asc: "array_sort (\<lambda>a b. f a - f b) xs = sort_key f xs"
  for f :: "'a \<Rightarrow> int"
  by (induction xs) (auto simp: array_sort_def sort_key_def insert_by_asc)

subsection \<open>The three cases of handleNewPost\<close>

lemma handleNewPost_existing:
  assumes "post_id p \<in> post_id ` set (unifiedFeed s)"
    and "length (unifiedFeed s) \<le> MAX_FEED_SIZE"
  shows "handleNewPost p tabId s =
         s\<lparr>unifiedFeed := (unifiedFeed s)
              [nat (findIndex (\<lambda>q. post_id q = post_id p) (unifiedFeed s)) :=
                 p\<lparr>sourceTabId := tabId\<rparr>],
           saveTimeout := True\<rparr>"
proof -
  from assms(1) have "0 \<le> findIndex (\<lambda>q. post_id q = post_id p) (unifiedFeed s)"
    by (rule findIndex_present)
  with assms(2) show ?thesis
    by (simp add: handleNewPost_def Let_def saveFeedToStorage_def)
qed

lemma handleNewPost_new_fits:
  assumes "post_id p \<notin> post_id ` set (unifiedFeed s)"
    and "length (unifiedFeed s) < MAX_FEED_SIZE"
  shows "handleNewPost p tabId s =
         s\<lparr>unifiedFeed := unifiedFeed s @ [p\<lparr>sourceTabId := tabId\<rparr>],
           sent := sent s @ [FEED_UPDATED (p\<lparr>sourceTabId := tabId\<rparr>)],
           saveTimeout := True\<rparr>"
proof -
  from assms(1) have "\<not> 0 \<le> findIndex (\<lambda>q. post_id q = post_id p) (unifiedFeed s)"
    by (simp add: findIndex_absent)
  with assms(2) show ?thesis
    by (simp add: handleNewPost_def Let_def saveFeedToStorage_def notifyPopup_def)
qed

lemma handleNewPost_new_full:
  assumes "post_id p \<notin> post_id ` set (unifiedFeed s)"
    and "MAX_FEED_SIZE \<le> length (unifiedFeed s)"
  shows "handleNewPost p tabId s =
         s\<lparr>unifiedFeed := take MAX_FEED_SIZE
              (array_sort (\<lambda>a b. scrapedAt b - scrapedAt a)
                 (unifiedFeed s @ [p\<lparr>sourceTabId := tabId\<rparr>])),
           sent := sent s @ [FEED_UPDATED (p\<lparr>sourceTabId := tabId\<rparr>)],
           saveTimeout := True\<rparr>"
proof -
  from assms(1) have "\<not> 0 \<le> findIndex (\<lambda>q. post_id q = post_id p) (unifiedFeed s)"
    by (simp add: findIndex_absent)
  with assms(2) show ?thesis
    by (simp add: handleNewPost_def Let_def saveFeedToStorage_def notifyPopup_def)
qed

subsection \<open>Well-formedness is kept\<close>

lemma distinct_ids_array_sort:
  "distinct (map post_id (array_sort cmp xs)) = distinct (map post_id xs)"
proof -
  have "mset (map post_id (array_sort cmp xs)) = mset (map post_id xs)"
    by (simp add: mset_array_sort)
  then show ?thesis by (rule mset_eq_imp_distinct_iff)
qed

lemma feed_ok_replace:
  assumes "feed_ok xs" and "i < length xs" and "post_id (xs ! i) = post_id p"
  shows "feed_ok (xs[i := p])"
proof -
  have "map post_id (xs[i := p]) = (map post_id xs)[i := post_id (xs ! i)]"
    using assms(3) by (simp add: map_update)
  also have "\<dots> = map post_id xs"
    using assms(2) by (metis list_update_id nth_map)
  finally show ?thesis using assms(1) by (simp add: feed_ok_def)
qed

lemma feed_ok_trim:
  assumes "distinct (map post_id xs)"
  shows "feed_ok (take MAX_FEED_SIZE (array_sort cmp xs))"
proof -
  have "distinct (take MAX_FEED_SIZE (map post_id (array_sort cmp xs)))"
    using assms by (simp add: distinct_ids_array_sort)
  then show ?thesis by (simp add: feed_ok_def take_map)
qed

lemma feed_ok_filter: "feed_ok xs \<Longrightarrow> feed_ok (filter P xs)"
  unfolding feed_ok_def
  by (meson distinct_map_filter le_trans length_filter_le)

lemma feed_ok_handleNewPost:
  assumes "feed_ok (unifiedFeed s)"
  shows "feed_ok (unifiedFeed (handleNewPost p tabId s))"
proof (cases "post_id p \<in> post_id ` set (unifiedFeed s)")
  case True
  let ?i = "findIndex (\<lambda>q. post_id q = post_id p) (unifiedFeed s)"
  from True have nn: "0 \<le> ?i" by (rule findIndex_present)
  then have "post_id (unifiedFeed s ! nat ?i) = post_id (p\<lparr>sourceTabId := tabId\<rparr>)"
    using findIndex_hit [of "\<lambda>q. post_id q = post_id p" "unifiedFeed s"] by simp
  moreover have "nat ?i < length (unifiedFeed s)"
    using nn findIndex_less_length [of "\<lambda>q. post_id q = post_id p" "unifiedFeed s"] by simp
  ultimately have "feed_ok ((unifiedFeed s)[nat ?i := p\<lparr>sourceTabId := tabId\<rparr>])"
    using assms by (intro feed_ok_replace)
  moreover from assms have "length (unifiedFeed s) \<le> MAX_FEED_SIZE" by (simp add: feed_ok_def)
  ultimately show ?thesis using True by (simp add: handleNewPost_existing)
next
  case False
  with assms have d: "distinct (map post_id (unifiedFeed s @ [p\<lparr>sourceTabId := tabId\<rparr>]))"
    by (simp add: feed_ok_def)
  show ?thesis
  proof (cases "length (unifiedFeed s) < MAX_FEED_SIZE")
    case True
    with False d show ?thesis by (simp add: handleNewPost_new_fits feed_ok_def)
  next
    case full: False
    then have "MAX_FEED_SIZE \<le> length (unifiedFeed s)" by simp
    with False show ?thesis
      using feed_ok_trim [OF d] by (simp add: handleNewPost_new_full)
  qed
qed

lemma state_ok_handleNewPost:
  "state_ok s \<Longrightarrow> state_ok (handleNewPost p tabId s)"
  using feed_ok_handleNewPost [of s p tabId]
  by (simp add: state_ok_def handleNewPost_def Let_def saveFeedToStorage_def notifyPopup_def)

lemma state_ok_step: "state_ok s \<Longrightarrow> state_ok (step e s)"
proof (cases e)
  case (Message m sender)
  assume "state_ok s"
  then show ?thesis
    using Message state_ok_handleNewPost [of s _ sender]
    by (cases m) (auto simp: onMessage_def clearFeed_def notifyPopup_def state_ok_def feed_ok_def)
next
  case (MonitorTab t now)
  assume "state_ok s"
  then show ?thesis using MonitorTab
    by (auto simp: monitorTab_def state_ok_def split: option.splits)
next
  case (UnmonitorTab tabId)
  assume "state_ok s"
  then show ?thesis using UnmonitorTab
    by (auto simp: unmonitorTab_def cleanupTabPosts_def saveFeedToStorage_def state_ok_def
        feed_ok_filter)
next
  case (TabActivated tabId now)
  assume "state_ok s"
  then show ?thesis using TabActivated
    by (auto simp: tabActivated_def state_ok_def split: option.splits)
next
  case SaveTimeoutFired
  assume "state_ok s"
  then show ?thesis using SaveTimeoutFired
    by (auto simp: saveTimeoutFired_def state_ok_def)
next
  case LoadResolved
  assume "state_ok s"
  then show ?thesis using LoadResolved
    by (auto simp: loadFeedFromStorage_resume_def state_ok_def split: option.splits)
next
  case Installed
  assume "state_ok s"
  then show ?thesis using Installed
    by (auto simp: state_ok_def feed_ok_def)
next
  case Restart
  assume "state_ok s"
  then show ?thesis using Restart
    by (auto simp: startup_def loadFeedFromStorage_def state_ok_def feed_ok_def
        split: option.splits)
qed

lemma state_ok_run: "state_ok s \<Longrightarrow> state_ok (run evs s)"
  by (induction evs arbitrary: s) (auto simp: state_ok_step)

lemma state_ok_init: "state_ok init_state"
  by (simp add: init_state_def startup_def loadFeedFromStorage_def state_ok_def feed_ok_def)

lemma state_ok_reachable: "state_ok (run evs init_state)"
  by (rule state_ok_run [OF state_ok_init])

subsection \<open>The sample states, evaluated\<close>

lemma getPlatform_home: "getPlatform ''https://x.com/home'' = ''twitter''"
  by (simp add: getPlatform_def)

lemma two_sessions_eval:
  "two_sessions =
     \<lparr>unifiedFeed = [post_a\<lparr>sourceTabId := Some 7\<rparr>, post_b\<lparr>sourceTabId := Some 8\<rparr>],
      monitoredTabs = [7 \<mapsto> \<lparr>info_url = ''https://x.com/home'', info_platform = ''twitter'',
                              lastUpdate = 1\<rparr>],
      saveTimeout = True, stored = None, pendingLoad = Some None,
      sent = [FEED_UPDATED (post_a\<lparr>sourceTabId := Some 7\<rparr>),
              FEED_UPDATED (post_b\<lparr>sourceTabId := Some 8\<rparr>)]\<rparr>"
  by (simp add: two_sessions_def init_state_def startup_def loadFeedFromStorage_def
      monitorTab_def home_tab_def getPlatform_home onMessage_def handleNewPost_def Let_def
      notifyPopup_def saveFeedToStorage_def MAX_FEED_SIZE_def post_a_def post_b_def)

section \<open>Cascade delete\<close>

text \<open>
  C6, as stated, does not hold for every session that has posts in the feed. Tab 8 has
  sent \<open>post_b\<close> and was never entered in the registry; stopping the monitoring of tab 8
  finds no registry entry, returns at once, and \<open>post_b\<close> stays in the feed.
\<close>

theorem unmonitorTab_unregistered_counterexample:
  "monitoredTabs two_sessions 8 = None \<and>
   sourceTabId (post_b\<lparr>sourceTabId := Some 8\<rparr>) = Some 8 \<and>
   post_b\<lparr>sourceTabId := Some 8\<rparr> \<in> set (unifiedFeed two_sessions) \<and>
   unifiedFeed (unmonitorTab 8 two_sessions) = unifiedFeed two_sessions \<and>
   post_b\<lparr>sourceTabId := Some 8\<rparr> \<in> set (unifiedFeed (unmonitorTab 8 two_sessions))"
  by (simp add: two_sessions_eval unmonitorTab_def)

text \<open>
  C6, amended. Stopping the monitoring of a session that is in the registry removes the
  session from the registry and removes from the feed exactly the posts whose
  \<open>sourceTabId\<close> is that session: what remains is the old feed, in its order, without
  them, so no post of another session is touched. Stopping a session that is not in the
  registry changes nothing at all, whatever posts of that session the feed holds.
\<close>

theorem unmonitorTab_cascade:
  "(monitoredTabs s tabId \<noteq> None \<longrightarrow>
      unifiedFeed (unmonitorTab tabId s) =
        filter (\<lambda>p. sourceTabId p \<noteq> Some tabId) (unifiedFeed s) \<and>
      set (unifiedFeed s) - set (unifiedFeed (unmonitorTab tabId s)) =
        {p \<in> set (unifiedFeed s). sourceTabId p = Some tabId} \<and>
      monitoredTabs (unmonitorTab tabId s) tabId = None) \<and>
   (monitoredTabs s tabId = None \<longrightarrow> unmonitorTab tabId s = s)"
  by (auto simp: unmonitorTab_def cleanupTabPosts_def saveFeedToStorage_def)

theorem unmonitorTab_cascade_witness:
  "monitoredTabs two_sessions 7 \<noteq> None \<and>
   unifiedFeed (unmonitorTab 7 two_sessions) = [post_b\<lparr>sourceTabId := Some 8\<rparr>] \<and>
   monitoredTabs two_sessions 9 = None \<and>
   unmonitorTab 9 two_sessions = two_sessions"
proof -
  have m7: "monitoredTabs two_sessions 7 \<noteq> None"
    and m9: "monitoredTabs two_sessions 9 = None"
    by (simp_all add: two_sessions_eval)
  have f: "filter (\<lambda>p. sourceTabId p \<noteq> Some 7) (unifiedFeed two_sessions) =
           [post_b\<lparr>sourceTabId := Some 8\<rparr>]"
    by (simp add: two_sessions_eval)
  from unmonitorTab_cascade [of two_sessions 7] m7 f
  have "unifiedFeed (unmonitorTab 7 two_sessions) = [post_b\<lparr>sourceTabId := Some 8\<rparr>]"
    by simp
  moreover from unmonitorTab_cascade [of two_sessions 9] m9
  have "unmonitorTab 9 two_sessions = two_sessions" by simp
  ultimately show ?thesis using m7 m9 by simp
qed

section \<open>Records without an id\<close>

text \<open>
  C3, as stated, does not hold: a record whose id is the empty string, sent to the
  freshly started worker, is stored and announced like any other record.
\<close>

theorem handleNewPost_empty_id_counterexample:
  "post_id post_noid = Some [] \<and>
   unifiedFeed (snd (onMessage (NEW_POST post_noid) (Some 7) init_state)) =
     [post_noid\<lparr>sourceTabId := Some 7\<rparr>] \<and>
   sent (snd (onMessage (NEW_POST post_noid) (Some 7) init_state)) =
     [FEED_UPDATED (post_noid\<lparr>sourceTabId := Some 7\<rparr>)] \<and>
   fst (onMessage (NEW_POST post_noid) (Some 7) init_state) = Success"
  by (simp add: post_noid_def init_state_def startup_def loadFeedFromStorage_def
      onMessage_def handleNewPost_def Let_def notifyPopup_def saveFeedToStorage_def
      MAX_FEED_SIZE_def)

text \<open>
  C3, amended. \<open>handleNewPost\<close> has no check of the id: a missing or empty id is a key
  like any other. Below capacity, a record with such an id is appended (with its
  \<open>sourceTabId\<close> set), announced by \<open>FEED_UPDATED\<close> and scheduled for saving when no
  stored record has the same id, and replaces the stored record in place, without
  announcement, when one has. The router answers \<open>success\<close> in both cases.
\<close>

theorem handleNewPost_empty_id:
  assumes "post_id p = None \<or> post_id p = Some []"
    and "length (unifiedFeed s) < MAX_FEED_SIZE"
  shows "(post_id p \<notin> post_id ` set (unifiedFeed s) \<longrightarrow>
            onMessage (NEW_POST p) tabId s =
              (Success,
               s\<lparr>unifiedFeed := unifiedFeed s @ [p\<lparr>sourceTabId := tabId\<rparr>],
                 sent := sent s @ [FEED_UPDATED (p\<lparr>sourceTabId := tabId\<rparr>)],
                 saveTimeout := True\<rparr>)) \<and>
         (post_id p \<in> post_id ` set (unifiedFeed s) \<longrightarrow>
            onMessage (NEW_POST p) tabId s =
              (Success,
               s\<lparr>unifiedFeed := (unifiedFeed s)
                    [nat (findIndex (\<lambda>q. post_id q = post_id p) (unifiedFeed s)) :=
                       p\<lparr>sourceTabId := tabId\<rparr>],
                 saveTimeout := True\<rparr>))"
  using assms(2)
  by (simp add: onMessage_def handleNewPost_new_fits handleNewPost_existing)

theorem handleNewPost_empty_id_witness:
  "(post_id post_noid = None \<or> post_id post_noid = Some []) \<and>
   length (unifiedFeed two_sessions) < MAX_FEED_SIZE \<and>
   post_id post_noid \<notin> post_id ` set (unifiedFeed two_sessions) \<and>
   unifiedFeed (snd (onMessage (NEW_POST post_noid) None two_sessions)) =
     unifiedFeed two_sessions @ [post_noid\<lparr>sourceTabId := None\<rparr>] \<and>
   length (unifiedFeed (handleNewPost post_noid None two_sessions)) < MAX_FEED_SIZE \<and>
   post_id post_noid \<in> post_id ` set (unifiedFeed (handleNewPost post_noid None two_sessions)) \<and>
   unifiedFeed (snd (onMessage (NEW_POST post_noid) (Some 8)
                      (handleNewPost post_noid None two_sessions))) =
     unifiedFeed two_sessions @ [post_noid\<lparr>sourceTabId := Some 8\<rparr>]"
proof -
  let ?s1 = "handleNewPost post_noid None two_sessions"
  have tf: "unifiedFeed two_sessions =
            [post_a\<lparr>sourceTabId := Some 7\<rparr>, post_b\<lparr>sourceTabId := Some 8\<rparr>]"
    by (simp add: two_sessions_eval)
  have e: "post_id post_noid = None \<or> post_id post_noid = Some []"
    by (simp add: post_noid_def)
  have l: "length (unifiedFeed two_sessions) < MAX_FEED_SIZE"
    by (simp add: tf MAX_FEED_SIZE_def)
  have n: "post_id post_noid \<notin> post_id ` set (unifiedFeed two_sessions)"
    by (simp add: tf post_noid_def post_a_def post_b_def)
  from handleNewPost_empty_id [OF e l, of None] n
  have first: "unifiedFeed (snd (onMessage (NEW_POST post_noid) None two_sessions)) =
        unifiedFeed two_sessions @ [post_noid\<lparr>sourceTabId := None\<rparr>]"
    by simp
  then have f1: "unifiedFeed ?s1 = unifiedFeed two_sessions @ [post_noid\<lparr>sourceTabId := None\<rparr>]"
    by (simp add: onMessage_def)
  have l1: "length (unifiedFeed ?s1) < MAX_FEED_SIZE"
    by (simp add: f1 tf MAX_FEED_SIZE_def)
  have m1: "post_id post_noid \<in> post_id ` set (unifiedFeed ?s1)"
    by (simp add: f1)
  have i1: "nat (findIndex (\<lambda>q. post_id q = post_id post_noid) (unifiedFeed ?s1)) = 2"
    unfolding f1 tf by (simp add: post_noid_def post_a_def post_b_def)
  from handleNewPost_empty_id [OF e l1, of "Some 8"] m1
  have "unifiedFeed (snd (onMessage (NEW_POST post_noid) (Some 8) ?s1)) =
        (unifiedFeed ?s1)[2 := post_noid\<lparr>sourceTabId := Some 8\<rparr>]"
    by (simp add: i1)
  then have second: "unifiedFeed (snd (onMessage (NEW_POST post_noid) (Some 8) ?s1)) =
        unifiedFeed two_sessions @ [post_noid\<lparr>sourceTabId := Some 8\<rparr>]"
    by (simp add: f1 tf)
  from e l n first l1 m1 second show ?thesis by simp
qed

section \<open>Policies of the sorted view\<close>

text \<open>
  C8, as stated, does not hold: under a policy name that the \<open>switch\<close> does not know,
  the view is the feed in its collection order, which differs from the chronological
  view as soon as the feed is not already newest first.
\<close>

theorem getSortedFeed_unknown_counterexample:
  "getSortedFeed (Some ''newest'') two_sessions =
     [post_a\<lparr>sourceTabId := Some 7\<rparr>, post_b\<lparr>sourceTabId := Some 8\<rparr>] \<and>
   getSortedFeed (Some ''chronological'') two_sessions =
     [post_b\<lparr>sourceTabId := Some 8\<rparr>, post_a\<lparr>sourceTabId := Some 7\<rparr>] \<and>
   getSortedFeed (Some ''newest'') two_sessions \<noteq>
     getSortedFeed (Some ''chronological'') two_sessions"
  by (simp add: getSortedFeed_def Let_def two_sessions_eval array_sort_def postTime_def
      js_minus_def numberOf_def nanToZero_def post_a_def post_b_def)

text \<open>
  C8, amended. For every policy string other than the four known ones, \<open>GET_FEED\<close>
  does not fail, leaves the state as it is and answers with the feed in its collection
  order, unsorted. Only a request without any policy is served chronologically.
\<close>

theorem getSortedFeed_unknown_policy:
  "(sortBy \<notin> {''chronological'', ''chronological-old'', ''engagement'', ''platform''} \<longrightarrow>
      onMessage (GET_FEED (Some sortBy)) sender s = (Feed (unifiedFeed s), s)) \<and>
   onMessage (GET_FEED None) sender s =
     onMessage (GET_FEED (Some ''chronological'')) sender s"
  by (simp add: onMessage_def getSortedFeed_def Let_def)

theorem getSortedFeed_unknown_policy_witness:
  "''newest'' \<notin> {''chronological'', ''chronological-old'', ''engagement'', ''platform''} \<and>
   onMessage (GET_FEED (Some ''newest'')) None two_sessions =
     (Feed (unifiedFeed two_sessions), two_sessions)"
proof -
  have h: "''newest'' \<notin> {''chronological'', ''chronological-old'', ''engagement'', ''platform''}"
    by simp
  with getSortedFeed_unknown_policy [of "''newest''" None two_sessions]
  show ?thesis by simp
qed

subsection \<open>Sorting by a descending integer key\<close>

lemma array_sort_desc_sorted:
  "sorted_wrt (\<lambda>x y. f y \<le> f x) (array_sort (\<lambda>a b. f b - f a) xs)"
  for f :: "'a \<Rightarrow> int"
proof -
  have "sorted (map (\<lambda>p. - f p) (sort_key (\<lambda>p. - f p) xs))"
    by (rule sorted_sort_key)
  then show ?thesis by (simp add: array_sort_desc sorted_map)
qed






section \<open>The chronological view\<close>










section \<open>One record per id\<close>

lemma filter_unique_key:
  "distinct (map f xs) \<Longrightarrow> x \<in> set xs \<Longrightarrow> filter (\<lambda>q. f q = f x) xs = [x]"
proof (induction xs)
  case Nil
  then show ?case by simp
next
  case (Cons y ys)
  show ?case
  proof (cases "y = x")
    case True
    with Cons.prems(1) have "f x \<notin> f ` set ys" by simp
    then have "\<forall>q \<in> set ys. f q \<noteq> f x" by (metis imageI)
    then have "filter (\<lambda>q. f q = f x) ys = []" by (simp add: filter_empty_conv)
    with True show ?thesis by simp
  next
    case False
    with Cons.prems have "x \<in> set ys" and "f y \<noteq> f x" and "distinct (map f ys)"
      by auto
    with Cons.IH show ?thesis by simp
  qed
qed

lemma existing_index:
  assumes "post_id p \<in> post_id ` set xs"
  shows "nat (findIndex (\<lambda>q. post_id q = post_id p) xs) < length xs"
    and "post_id (xs ! nat (findIndex (\<lambda>q. post_id q = post_id p) xs)) = post_id p"
proof -
  from assms have nn: "0 \<le> findIndex (\<lambda>q. post_id q = post_id p) xs"
    by (rule findIndex_present)
  then show "nat (findIndex (\<lambda>q. post_id q = post_id p) xs) < length xs"
    using findIndex_less_length [of "\<lambda>q. post_id q = post_id p" xs] by simp
  from nn show "post_id (xs ! nat (findIndex (\<lambda>q. post_id q = post_id p) xs)) = post_id p"
    using findIndex_hit [of "\<lambda>q. post_id q = post_id p" xs] by simp
qed

text \<open>
  C2. Whatever has happened since the worker was first started, the feed holds no id
  twice. When a record arrives whose id is already in the feed, the entry at the
  position of that id is replaced by the received record (with its \<open>sourceTabId\<close> set):
  the feed keeps its length, every other position keeps its entry, and nothing is
  announced.
\<close>

theorem one_record_per_id:
  "distinct (map post_id (unifiedFeed (run evs init_state))) \<and>
   (\<forall>p tabId.
      post_id p \<in> post_id ` set (unifiedFeed (run evs init_state)) \<longrightarrow>
        nat (findIndex (\<lambda>q. post_id q = post_id p) (unifiedFeed (run evs init_state)))
          < length (unifiedFeed (run evs init_state)) \<and>
        post_id (unifiedFeed (run evs init_state) !
                   nat (findIndex (\<lambda>q. post_id q = post_id p)
                          (unifiedFeed (run evs init_state)))) = post_id p \<and>
        unifiedFeed (handleNewPost p tabId (run evs init_state)) =
          (unifiedFeed (run evs init_state))
            [nat (findIndex (\<lambda>q. post_id q = post_id p) (unifiedFeed (run evs init_state))) :=
               p\<lparr>sourceTabId := tabId\<rparr>] \<and>
        length (unifiedFeed (handleNewPost p tabId (run evs init_state))) =
          length (unifiedFeed (run evs init_state)) \<and>
        sent (handleNewPost p tabId (run evs init_state)) = sent (run evs init_state) \<and>
        distinct (map post_id (unifiedFeed (handleNewPost p tabId (run evs init_state)))))"
proof -
  let ?s = "run evs init_state"
  have ok: "feed_ok (unifiedFeed ?s)"
    using state_ok_reachable [of evs] by (simp add: state_ok_def)
  then have len: "length (unifiedFeed ?s) \<le> MAX_FEED_SIZE"
    and dist: "distinct (map post_id (unifiedFeed ?s))"
    by (simp_all add: feed_ok_def)
  have "nat (findIndex (\<lambda>q. post_id q = post_id p) (unifiedFeed ?s)) < length (unifiedFeed ?s) \<and>
        post_id (unifiedFeed ?s ! nat (findIndex (\<lambda>q. post_id q = post_id p) (unifiedFeed ?s))) =
          post_id p \<and>
        unifiedFeed (handleNewPost p tabId ?s) =
          (unifiedFeed ?s)
            [nat (findIndex (\<lambda>q. post_id q = post_id p) (unifiedFeed ?s)) :=
               p\<lparr>sourceTabId := tabId\<rparr>] \<and>
        length (unifiedFeed (handleNewPost p tabId ?s)) = length (unifiedFeed ?s) \<and>
        sent (handleNewPost p tabId ?s) = sent ?s \<and>
        distinct (map post_id (unifiedFeed (handleNewPost p tabId ?s)))"
    if m: "post_id p \<in> post_id ` set (unifiedFeed ?s)" for p tabId
  proof -
    have d: "distinct (map post_id (unifiedFeed (handleNewPost p tabId ?s)))"
      using feed_ok_handleNewPost [OF ok, of p tabId] by (simp add: feed_ok_def)
    have h: "handleNewPost p tabId ?s =
         ?s\<lparr>unifiedFeed := (unifiedFeed ?s)
              [nat (findIndex (\<lambda>q. post_id q = post_id p) (unifiedFeed ?s)) :=
                 p\<lparr>sourceTabId := tabId\<rparr>],
           saveTimeout := True\<rparr>"
      by (rule handleNewPost_existing [OF m len])
    from d existing_index [OF m] show ?thesis by (simp add: h)
  qed
  with dist show ?thesis by blast
qed

theorem one_record_per_id_witness:
  "post_id post_a_again \<in> post_id ` set (unifiedFeed two_sessions) \<and>
   unifiedFeed (handleNewPost post_a_again (Some 7) two_sessions) =
     [post_a_again\<lparr>sourceTabId := Some 7\<rparr>, post_b\<lparr>sourceTabId := Some 8\<rparr>] \<and>
   sent (handleNewPost post_a_again (Some 7) two_sessions) = sent two_sessions"
proof -
  have tf: "unifiedFeed two_sessions =
            [post_a\<lparr>sourceTabId := Some 7\<rparr>, post_b\<lparr>sourceTabId := Some 8\<rparr>]"
    by (simp add: two_sessions_eval)
  have m: "post_id post_a_again \<in> post_id ` set (unifiedFeed two_sessions)"
    unfolding tf by (simp add: post_a_again_def)
  have i: "nat (findIndex (\<lambda>q. post_id q = post_id post_a_again) (unifiedFeed two_sessions)) = 0"
    unfolding tf by (simp add: post_a_again_def)
  note t = one_record_per_id
    [of "[MonitorTab home_tab 1, Message (NEW_POST post_a) (Some 7),
          Message (NEW_POST post_b) (Some 8)]", folded two_sessions_def]
  from t m have "unifiedFeed (handleNewPost post_a_again (Some 7) two_sessions) =
      (unifiedFeed two_sessions)
        [nat (findIndex (\<lambda>q. post_id q = post_id post_a_again) (unifiedFeed two_sessions)) :=
           post_a_again\<lparr>sourceTabId := Some 7\<rparr>]"
    by blast
  then have "unifiedFeed (handleNewPost post_a_again (Some 7) two_sessions) =
      (unifiedFeed two_sessions)[0 := post_a_again\<lparr>sourceTabId := Some 7\<rparr>]"
    by (simp only: i)
  then have "unifiedFeed (handleNewPost post_a_again (Some 7) two_sessions) =
     [post_a_again\<lparr>sourceTabId := Some 7\<rparr>, post_b\<lparr>sourceTabId := Some 8\<rparr>]"
    by (simp add: tf)
  moreover from t m
  have "sent (handleNewPost post_a_again (Some 7) two_sessions) = sent two_sessions"
    by blast
  ultimately show ?thesis using m by simp
qed

section \<open>Ownership follows the last sender\<close>

text \<open>
  C10. When a record arrives whose id is already in the feed, the stored record of that
  id is afterwards the received one with \<open>sourceTabId\<close> set to the sender of this
  message. So a cascade delete for any other session, the one that announced the post
  first included, keeps the post, and a cascade delete for the sender of this message
  removes it.
\<close>

theorem sourceTabId_follows_sender:
  assumes "post_id p \<in> post_id ` set (unifiedFeed (run evs init_state))"
  shows "filter (\<lambda>q. post_id q = post_id p)
           (unifiedFeed (handleNewPost p tabId (run evs init_state))) =
           [p\<lparr>sourceTabId := tabId\<rparr>] \<and>
         (\<forall>A. Some A \<noteq> tabId \<longrightarrow>
            p\<lparr>sourceTabId := tabId\<rparr> \<in>
              set (unifiedFeed (cleanupTabPosts A (handleNewPost p tabId (run evs init_state))))) \<and>
         (\<forall>B. tabId = Some B \<longrightarrow>
            post_id p \<notin> post_id `
              set (unifiedFeed (cleanupTabPosts B (handleNewPost p tabId (run evs init_state)))))"
proof -
  let ?s = "run evs init_state"
  let ?p = "p\<lparr>sourceTabId := tabId\<rparr>"
  let ?f = "unifiedFeed (handleNewPost p tabId ?s)"
  have ok: "feed_ok (unifiedFeed ?s)"
    using state_ok_reachable [of evs] by (simp add: state_ok_def)
  then have len: "length (unifiedFeed ?s) \<le> MAX_FEED_SIZE" by (simp add: feed_ok_def)
  have dist: "distinct (map post_id ?f)"
    using feed_ok_handleNewPost [OF ok, of p tabId] by (simp add: feed_ok_def)
  have mem: "?p \<in> set ?f"
    using assms len existing_index(1) [OF assms]
    by (simp add: handleNewPost_existing set_update_memI)
  from filter_unique_key [OF dist mem]
  have only: "filter (\<lambda>q. post_id q = post_id p) ?f = [?p]" by simp
  have keep: "?p \<in> set (unifiedFeed (cleanupTabPosts A (handleNewPost p tabId ?s)))"
    if "Some A \<noteq> tabId" for A
    using mem that by (auto simp: cleanupTabPosts_def saveFeedToStorage_def)
  have gone: "post_id p \<notin> post_id `
      set (unifiedFeed (cleanupTabPosts B (handleNewPost p tabId ?s)))"
    if b: "tabId = Some B" for B
  proof
    assume "post_id p \<in> post_id `
      set (unifiedFeed (cleanupTabPosts B (handleNewPost p tabId ?s)))"
    then obtain q where q: "q \<in> set ?f" "sourceTabId q \<noteq> Some B" "post_id q = post_id p"
      by (auto simp: cleanupTabPosts_def saveFeedToStorage_def)
    then have "q \<in> set (filter (\<lambda>q. post_id q = post_id p) ?f)" by simp
    with only have "q = ?p" by simp
    with q(2) b show False by simp
  qed
  from only keep gone show ?thesis by blast
qed

theorem sourceTabId_follows_sender_witness:
  "post_id post_a \<in> post_id ` set (unifiedFeed two_sessions) \<and>
   Some 7 \<noteq> Some (8::int) \<and>
   post_a\<lparr>sourceTabId := Some 8\<rparr> \<in>
     set (unifiedFeed (cleanupTabPosts 7 (handleNewPost post_a (Some 8) two_sessions))) \<and>
   post_id post_a \<notin> post_id `
     set (unifiedFeed (cleanupTabPosts 8 (handleNewPost post_a (Some 8) two_sessions)))"
proof -
  have m: "post_id post_a \<in> post_id ` set (unifiedFeed two_sessions)"
    by (simp add: two_sessions_eval)
  note t = sourceTabId_follows_sender
    [of post_a "[MonitorTab home_tab 1, Message (NEW_POST post_a) (Some 7),
          Message (NEW_POST post_b) (Some 8)]" "Some 8", folded two_sessions_def, OF m]
  have d: "Some 7 \<noteq> Some (8::int)" by simp
  from t d have "post_a\<lparr>sourceTabId := Some 8\<rparr> \<in>
     set (unifiedFeed (cleanupTabPosts 7 (handleNewPost post_a (Some 8) two_sessions)))"
    by blast
  moreover from t have "post_id post_a \<notin> post_id `
     set (unifiedFeed (cleanupTabPosts 8 (handleNewPost post_a (Some 8) two_sessions)))"
    by blast
  ultimately show ?thesis using m d by simp
qed

section \<open>Cold start\<close>

lemma cold_start_eval:
  "run cold_start init_state =
     \<lparr>unifiedFeed = [], monitoredTabs = Map.empty, saveTimeout = False,
      stored = Some [post_a\<lparr>sourceTabId := Some 7\<rparr>],
      pendingLoad = Some (Some [post_a\<lparr>sourceTabId := Some 7\<rparr>]),
      sent = [FEED_UPDATED (post_a\<lparr>sourceTabId := Some 7\<rparr>)]\<rparr>"
  by (simp add: cold_start_def init_state_def startup_def loadFeedFromStorage_def
      onMessage_def handleNewPost_def Let_def notifyPopup_def saveFeedToStorage_def
      saveTimeoutFired_def MAX_FEED_SIZE_def)

lemma run_append: "run (es @ fs) s = run fs (run es s)"
  by (induction es arbitrary: s) simp_all

text \<open>
  C5, as stated, does not hold: the script starts the load and does not wait for it, and
  the listener does not ask whether it has finished. After a restart with \<open>post_a\<close> in
  storage, the load is still pending and the feed is empty; a \<open>NEW_POST\<close> arriving now is
  processed against the empty feed while the load stays pending, a \<open>GET_FEED\<close> arriving
  now is answered with the empty feed, and when the load completes it replaces the feed,
  so the record ingested in between is gone.
\<close>

theorem cold_start_counterexample:
  "pendingLoad (run cold_start init_state) = Some (Some [post_a\<lparr>sourceTabId := Some 7\<rparr>]) \<and>
   unifiedFeed (run cold_start init_state) = [] \<and>
   unifiedFeed (run (cold_start @ [Message (NEW_POST post_c) (Some 7)]) init_state) =
     [post_c\<lparr>sourceTabId := Some 7\<rparr>] \<and>
   pendingLoad (run (cold_start @ [Message (NEW_POST post_c) (Some 7)]) init_state) =
     Some (Some [post_a\<lparr>sourceTabId := Some 7\<rparr>]) \<and>
   fst (onMessage (GET_FEED None) None (run cold_start init_state)) = Feed [] \<and>
   unifiedFeed (run (cold_start @ [Message (NEW_POST post_c) (Some 7), LoadResolved]) init_state) =
     [post_a\<lparr>sourceTabId := Some 7\<rparr>]"
  by (simp add: run_append cold_start_eval onMessage_def handleNewPost_def Let_def
      notifyPopup_def saveFeedToStorage_def MAX_FEED_SIZE_def getSortedFeed_def
      array_sort_def loadFeedFromStorage_resume_def)

text \<open>
  C5, amended. A start of the worker issues the storage read and leaves it pending, with
  an empty feed. There is no barrier: a \<open>NEW_POST\<close> that arrives while the read is
  pending is ingested into the empty feed, announced and scheduled for saving, and the
  read stays pending; a \<open>GET_FEED\<close> that arrives then is answered with the empty feed.
  When the read completes, a feed found in storage replaces the feed in memory,
  whatever was ingested in between; if storage held no feed, the feed in memory stays.
\<close>

theorem cold_start_no_barrier:
  "pendingLoad (startup st out) = Some st \<and>
   unifiedFeed (startup st out) = [] \<and>
   onMessage (NEW_POST p) sender (startup st out) =
     (Success,
      (startup st out)\<lparr>unifiedFeed := [p\<lparr>sourceTabId := sender\<rparr>],
                        sent := out @ [FEED_UPDATED (p\<lparr>sourceTabId := sender\<rparr>)],
                        saveTimeout := True\<rparr>) \<and>
   onMessage (GET_FEED sortBy) sender (startup st out) = (Feed [], startup st out) \<and>
   unifiedFeed (loadFeedFromStorage_resume s) =
     (case pendingLoad s of Some (Some feed) \<Rightarrow> feed | _ \<Rightarrow> unifiedFeed s) \<and>
   pendingLoad (loadFeedFromStorage_resume s) = None"
  by (simp add: startup_def loadFeedFromStorage_def onMessage_def handleNewPost_def Let_def
      notifyPopup_def saveFeedToStorage_def MAX_FEED_SIZE_def getSortedFeed_def
      array_sort_def loadFeedFromStorage_resume_def split: option.splits)

theorem cold_start_no_barrier_witness:
  "pendingLoad (startup (Some [post_a]) []) = Some (Some [post_a]) \<and>
   unifiedFeed (snd (onMessage (NEW_POST post_c) (Some 7) (startup (Some [post_a]) []))) =
     [post_c\<lparr>sourceTabId := Some 7\<rparr>] \<and>
   pendingLoad (snd (onMessage (NEW_POST post_c) (Some 7) (startup (Some [post_a]) []))) =
     Some (Some [post_a])"
  using cold_start_no_barrier [of "Some [post_a]" "[]" post_c "Some 7"]
  by simp

section \<open>Capacity\<close>

lemma trim_most_recent:
  assumes r: "r = take n (array_sort (\<lambda>a b. scrapedAt b - scrapedAt a) u)"
  shows "mset r \<subseteq># mset u"
    and "\<forall>x \<in># mset u - mset r. \<forall>y \<in> set r. scrapedAt x \<le> scrapedAt y"
proof -
  let ?srt = "array_sort (\<lambda>a b. scrapedAt b - scrapedAt a) u"
  have split: "r @ drop n ?srt = ?srt" using r by simp
  have "mset r + mset (drop n ?srt) = mset ?srt"
    using split by (metis mset_append)
  then have m: "mset u = mset r + mset (drop n ?srt)"
    by (simp add: mset_array_sort)
  then show "mset r \<subseteq># mset u" by simp
  from m have rest: "mset u - mset r = mset (drop n ?srt)" by simp
  have "sorted_wrt (\<lambda>x y. scrapedAt y \<le> scrapedAt x) (r @ drop n ?srt)"
    using array_sort_desc_sorted [of scrapedAt u] by (simp only: split)
  then have "\<forall>y \<in> set r. \<forall>x \<in> set (drop n ?srt). scrapedAt x \<le> scrapedAt y"
    by (simp add: sorted_wrt_append)
  then show "\<forall>x \<in># mset u - mset r. \<forall>y \<in> set r. scrapedAt x \<le> scrapedAt y"
    unfolding rest by auto
qed

lemma run_new_posts:
  assumes "distinct (map post_id ps)"
    and "post_id ` set ps \<inter> post_id ` set (unifiedFeed s) = {}"
    and "length (unifiedFeed s) + length ps \<le> MAX_FEED_SIZE"
  shows "unifiedFeed (run (map (\<lambda>p. Message (NEW_POST p) tabId) ps) s) =
           unifiedFeed s @ map (\<lambda>p. p\<lparr>sourceTabId := tabId\<rparr>) ps \<and>
         sent (run (map (\<lambda>p. Message (NEW_POST p) tabId) ps) s) =
           sent s @ map (\<lambda>p. FEED_UPDATED (p\<lparr>sourceTabId := tabId\<rparr>)) ps"
  using assms
proof (induction ps arbitrary: s)
  case Nil
  then show ?case by simp
next
  case (Cons p ps)
  let ?s1 = "handleNewPost p tabId s"
  from Cons.prems(2) have new: "post_id p \<notin> post_id ` set (unifiedFeed s)" by auto
  from Cons.prems(3) have fits: "length (unifiedFeed s) < MAX_FEED_SIZE" by simp
  have s1: "?s1 = s\<lparr>unifiedFeed := unifiedFeed s @ [p\<lparr>sourceTabId := tabId\<rparr>],
           sent := sent s @ [FEED_UPDATED (p\<lparr>sourceTabId := tabId\<rparr>)],
           saveTimeout := True\<rparr>"
    by (rule handleNewPost_new_fits [OF new fits])
  have d: "distinct (map post_id ps)" using Cons.prems(1) by simp
  have i: "post_id ` set ps \<inter> post_id ` set (unifiedFeed ?s1) = {}"
    using Cons.prems(1,2) by (auto simp: s1)
  have l: "length (unifiedFeed ?s1) + length ps \<le> MAX_FEED_SIZE"
    using Cons.prems(3) by (simp add: s1)
  from Cons.IH [OF d i l] show ?case
    by (simp add: onMessage_def s1)
qed

lemma numbered_ids_distinct: "distinct (map post_id (map numbered [0..<n]))"
proof -
  have "inj_on (\<lambda>k. post_id (numbered k)) (set [0..<n])"
    by (rule inj_onI) (simp add: numbered_def)
  then show ?thesis by (simp add: distinct_map comp_def)
qed

lemma fill_up_feed:
  "unifiedFeed (run fill_up init_state) =
     map (\<lambda>n. (numbered n)\<lparr>sourceTabId := Some 7\<rparr>) [0..<500]"
  and fill_up_sent:
  "sent (run fill_up init_state) =
     map (\<lambda>n. FEED_UPDATED ((numbered n)\<lparr>sourceTabId := Some 7\<rparr>)) [0..<500]"
proof -
  have e: "unifiedFeed init_state = []" "sent init_state = []"
    by (simp_all add: init_state_def startup_def loadFeedFromStorage_def)
  have f: "fill_up = map (\<lambda>p. Message (NEW_POST p) (Some 7)) (map numbered [0..<500])"
    by (simp add: fill_up_def comp_def)
  have "post_id ` set (map numbered [0..<500]) \<inter> post_id ` set (unifiedFeed init_state) = {}"
    by (simp add: e)
  moreover have "length (unifiedFeed init_state) + length (map numbered [0..<500]) \<le> MAX_FEED_SIZE"
    by (simp add: e MAX_FEED_SIZE_def)
  ultimately have r: "unifiedFeed (run fill_up init_state) =
           unifiedFeed init_state @ map (\<lambda>p. p\<lparr>sourceTabId := Some 7\<rparr>) (map numbered [0..<500]) \<and>
         sent (run fill_up init_state) =
           sent init_state @ map (\<lambda>p. FEED_UPDATED (p\<lparr>sourceTabId := Some 7\<rparr>)) (map numbered [0..<500])"
    unfolding f by (intro run_new_posts numbered_ids_distinct)
  from r show "unifiedFeed (run fill_up init_state) =
     map (\<lambda>n. (numbered n)\<lparr>sourceTabId := Some 7\<rparr>) [0..<500]"
    by (simp add: e comp_def)
  from r show "sent (run fill_up init_state) =
     map (\<lambda>n. FEED_UPDATED ((numbered n)\<lparr>sourceTabId := Some 7\<rparr>)) [0..<500]"
    by (simp add: e comp_def)
qed

lemma late_post_new: "post_id late_post \<notin> post_id ` set (unifiedFeed (run fill_up init_state))"
  by (auto simp: fill_up_feed late_post_def numbered_def)

lemma fill_up_length: "length (unifiedFeed (run fill_up init_state)) = 500"
  by (simp add: fill_up_feed)


text \<open>
  C1. Whatever has happened since the worker was first started (messages, tab events,
  timer, load, restart), the feed holds at most 500 records. When a record with a new
  id arrives at a feed of 500, so that the upsert makes it 501, exactly 500 are
  retained: they are records of those 501, and none of the discarded ones was scraped
  later than any retained one. In the other two cases the upsert does not exceed the
  capacity and nothing is discarded: a new id below capacity is appended, a known id
  keeps the length.
\<close>

theorem capacity_bound:
  "length (unifiedFeed (run evs init_state)) \<le> 500 \<and>
   (\<forall>p tabId.
      (post_id p \<notin> post_id ` set (unifiedFeed (run evs init_state)) \<and>
       length (unifiedFeed (run evs init_state)) = 500 \<longrightarrow>
         length (unifiedFeed (handleNewPost p tabId (run evs init_state))) = 500 \<and>
         mset (unifiedFeed (handleNewPost p tabId (run evs init_state))) \<subseteq>#
           mset (unifiedFeed (run evs init_state) @ [p\<lparr>sourceTabId := tabId\<rparr>]) \<and>
         (\<forall>x \<in># mset (unifiedFeed (run evs init_state) @ [p\<lparr>sourceTabId := tabId\<rparr>]) -
                  mset (unifiedFeed (handleNewPost p tabId (run evs init_state))).
            \<forall>y \<in> set (unifiedFeed (handleNewPost p tabId (run evs init_state))).
              scrapedAt x \<le> scrapedAt y)) \<and>
      (post_id p \<notin> post_id ` set (unifiedFeed (run evs init_state)) \<and>
       length (unifiedFeed (run evs init_state)) < 500 \<longrightarrow>
         unifiedFeed (handleNewPost p tabId (run evs init_state)) =
           unifiedFeed (run evs init_state) @ [p\<lparr>sourceTabId := tabId\<rparr>]) \<and>
      (post_id p \<in> post_id ` set (unifiedFeed (run evs init_state)) \<longrightarrow>
         length (unifiedFeed (handleNewPost p tabId (run evs init_state))) =
           length (unifiedFeed (run evs init_state))))"
proof -
  let ?s = "run evs init_state"
  have ok: "feed_ok (unifiedFeed ?s)"
    using state_ok_reachable [of evs] by (simp add: state_ok_def)
  then have len: "length (unifiedFeed ?s) \<le> MAX_FEED_SIZE" by (simp add: feed_ok_def)
  have full: "length (unifiedFeed (handleNewPost p tabId ?s)) = 500 \<and>
         mset (unifiedFeed (handleNewPost p tabId ?s)) \<subseteq>#
           mset (unifiedFeed ?s @ [p\<lparr>sourceTabId := tabId\<rparr>]) \<and>
         (\<forall>x \<in># mset (unifiedFeed ?s @ [p\<lparr>sourceTabId := tabId\<rparr>]) -
                  mset (unifiedFeed (handleNewPost p tabId ?s)).
            \<forall>y \<in> set (unifiedFeed (handleNewPost p tabId ?s)). scrapedAt x \<le> scrapedAt y)"
    if new: "post_id p \<notin> post_id ` set (unifiedFeed ?s)"
      and l: "length (unifiedFeed ?s) = 500" for p tabId
  proof -
    from l have "MAX_FEED_SIZE \<le> length (unifiedFeed ?s)" by (simp add: MAX_FEED_SIZE_def)
    from handleNewPost_new_full [OF new this, of tabId]
    have r: "unifiedFeed (handleNewPost p tabId ?s) =
             take MAX_FEED_SIZE (array_sort (\<lambda>a b. scrapedAt b - scrapedAt a)
               (unifiedFeed ?s @ [p\<lparr>sourceTabId := tabId\<rparr>]))"
      by simp
    have "length (unifiedFeed (handleNewPost p tabId ?s)) = 500"
      using l by (simp add: r length_array_sort MAX_FEED_SIZE_def)
    with trim_most_recent [OF r] show ?thesis by simp
  qed
  have fits: "unifiedFeed (handleNewPost p tabId ?s) =
           unifiedFeed ?s @ [p\<lparr>sourceTabId := tabId\<rparr>]"
    if new: "post_id p \<notin> post_id ` set (unifiedFeed ?s)"
      and l: "length (unifiedFeed ?s) < 500" for p tabId
  proof -
    from l have "length (unifiedFeed ?s) < MAX_FEED_SIZE" by (simp add: MAX_FEED_SIZE_def)
    from handleNewPost_new_fits [OF new this, of tabId] show ?thesis by simp
  qed
  have same: "length (unifiedFeed (handleNewPost p tabId ?s)) = length (unifiedFeed ?s)"
    if old: "post_id p \<in> post_id ` set (unifiedFeed ?s)" for p tabId
    using handleNewPost_existing [OF old len, of tabId] by simp
  from len have "length (unifiedFeed ?s) \<le> 500" by (simp add: MAX_FEED_SIZE_def)
  with full fits same show ?thesis by blast
qed

theorem capacity_bound_witness:
  "length (unifiedFeed (run fill_up init_state)) \<le> 500 \<and>
   post_id late_post \<notin> post_id ` set (unifiedFeed (run fill_up init_state)) \<and>
   length (unifiedFeed (run fill_up init_state)) = 500 \<and>
   length (unifiedFeed (handleNewPost late_post (Some 7) (run fill_up init_state))) = 500 \<and>
   mset (unifiedFeed (handleNewPost late_post (Some 7) (run fill_up init_state))) \<subseteq>#
     mset (unifiedFeed (run fill_up init_state) @ [late_post\<lparr>sourceTabId := Some 7\<rparr>]) \<and>
   post_id post_c \<notin> post_id ` set (unifiedFeed two_sessions) \<and>
   length (unifiedFeed two_sessions) < 500 \<and>
   unifiedFeed (handleNewPost post_c (Some 8) two_sessions) =
     unifiedFeed two_sessions @ [post_c\<lparr>sourceTabId := Some 8\<rparr>] \<and>
   post_id post_a \<in> post_id ` set (unifiedFeed two_sessions) \<and>
   length (unifiedFeed (handleNewPost post_a (Some 8) two_sessions)) =
     length (unifiedFeed two_sessions)"
proof -
  have tf: "unifiedFeed two_sessions =
            [post_a\<lparr>sourceTabId := Some 7\<rparr>, post_b\<lparr>sourceTabId := Some 8\<rparr>]"
    by (simp add: two_sessions_eval)
  have c: "post_id post_c \<notin> post_id ` set (unifiedFeed two_sessions)"
    unfolding tf by (simp add: post_a_def post_b_def post_c_def)
  have l: "length (unifiedFeed two_sessions) < 500"
    unfolding tf by simp
  have a: "post_id post_a \<in> post_id ` set (unifiedFeed two_sessions)"
    unfolding tf by simp
  note t = capacity_bound
    [of "[MonitorTab home_tab 1, Message (NEW_POST post_a) (Some 7),
          Message (NEW_POST post_b) (Some 8)]", folded two_sessions_def]
  from t c l have "unifiedFeed (handleNewPost post_c (Some 8) two_sessions) =
     unifiedFeed two_sessions @ [post_c\<lparr>sourceTabId := Some 8\<rparr>]"
    by blast
  moreover from t a have "length (unifiedFeed (handleNewPost post_a (Some 8) two_sessions)) =
     length (unifiedFeed two_sessions)"
    by blast
  moreover have "length (unifiedFeed (run fill_up init_state)) \<le> 500 \<and>
   length (unifiedFeed (handleNewPost late_post (Some 7) (run fill_up init_state))) = 500 \<and>
   mset (unifiedFeed (handleNewPost late_post (Some 7) (run fill_up init_state))) \<subseteq>#
     mset (unifiedFeed (run fill_up init_state) @ [late_post\<lparr>sourceTabId := Some 7\<rparr>])"
    using capacity_bound [of fill_up] late_post_new fill_up_length by blast
  ultimately show ?thesis using c l a late_post_new fill_up_length by simp
qed

section \<open>Notification and re-ingestion\<close>











section \<open>Engagement\<close>






end
